theory Spec2Isabelle
  imports Main "HOL-Library.Multiset"
begin

section \<open>The request admission pipeline of danmu_api\<close>

text \<open>
  A shallow embedding of \<^verbatim>\<open>handleRequest\<close> (the worker entry point of danmu_api):
  token check on the first path segment, normalisation of the remaining path onto
  \<^verbatim>\<open>/api/v2\<close>, the dispatch table, and the comment route with its cache lookup and
  per-client sliding-window rate limit.

  JavaScript strings are modelled as \<^typ>\<open>string\<close>; \<^verbatim>\<open>url.pathname\<close> is ASCII (the URL
  parser percent-encodes everything else). Timestamps (\<^verbatim>\<open>Date.now()\<close>, milliseconds)
  and the configured capacity are \<^typ>\<open>int\<close>. \<^verbatim>\<open>globals.requestHistory\<close> (a \<^verbatim>\<open>Map\<close>
  from client address to an array of timestamps) is a map that every function takes and
  returns. Logging has no effect on what is modelled and is left out.
\<close>

subsection \<open>String operations of the host language\<close>

text \<open>\<^verbatim>\<open>s.startsWith(p)\<close>.\<close>

definition startsWith :: "string \<Rightarrow> string \<Rightarrow> bool" where
  "startsWith s p = (take (length p) s = p)"

text \<open>\<^verbatim>\<open>s.split("/")\<close>: the pieces between separators, empty pieces included; never empty.\<close>

fun splitOn :: "char \<Rightarrow> string \<Rightarrow> string list" where
  "splitOn c [] = [[]]"
| "splitOn c (x # xs) =
     (if x = c then [] # splitOn c xs
      else (case splitOn c xs of [] \<Rightarrow> [[x]] | s # ss \<Rightarrow> (x # s) # ss))"

text \<open>\<^verbatim>\<open>parts.join("/")\<close>.\<close>

fun joinWith :: "string \<Rightarrow> string list \<Rightarrow> string" where
  "joinWith sep [] = []"
| "joinWith sep [s] = s"
| "joinWith sep (s # t # ts) = s @ sep @ joinWith sep (t # ts)"

subsection \<open>Path normalisation\<close>

text \<open>
  Step 1 of the normaliser:
  \<^verbatim>\<open>while (path.startsWith('/api/v2/api/v2/')) path = path.substring('/api/v2'.length);\<close>
\<close>

function collapsePrefix :: "string \<Rightarrow> string" where
  "collapsePrefix path =
     (if startsWith path ''/api/v2/api/v2/'' then collapsePrefix (drop (length ''/api/v2'') path)
      else path)"
  by pat_completeness auto
termination
proof (relation "measure length")
  show "wf (measure length)" by simp
next
  fix path :: string
  assume "startsWith path ''/api/v2/api/v2/''"
  then have "path \<noteq> []" by (auto simp: startsWith_def)
  then show "(drop (length ''/api/v2'') path, path) \<in> measure length" by simp
qed

declare collapsePrefix.simps [simp del]

text \<open>
  Step 2 of the normaliser:
  \<^verbatim>\<open>if (!path.startsWith('/api/v2') && path !== '/' && !path.startsWith('/api/logs'))
      path = '/api/v2' + path;\<close>
\<close>

definition completePrefix :: "string \<Rightarrow> string" where
  "completePrefix path =
     (if \<not> startsWith path ''/api/v2'' \<and> path \<noteq> ''/'' \<and> \<not> startsWith path ''/api/logs''
      then ''/api/v2'' @ path else path)"

text \<open>
  The whole block, guarded by \<^verbatim>\<open>if (path !== "/" && path !== "/api/logs")\<close>.
\<close>

definition normalizePath :: "string \<Rightarrow> string" where
  "normalizePath path =
     (if path \<noteq> ''/'' \<and> path \<noteq> ''/api/logs'' then completePrefix (collapsePrefix path)
      else path)"

subsection \<open>Numbers read from the path\<close>

text \<open>
  The result of \<^verbatim>\<open>parseInt\<close>: \<^verbatim>\<open>NaN\<close> or an integer. (JavaScript rounds integers
  beyond \<open>2^53\<close> to the nearest double and has a negative zero; neither is modelled: the
  value is only handed on to \<^verbatim>\<open>findUrlById\<close>.)
\<close>

datatype number = NaN | Number int

definition isWhiteSpace :: "char \<Rightarrow> bool" where
  "isWhiteSpace c = ((of_char c :: nat) \<in> {9, 10, 11, 12, 13, 32})"

definition digitValue :: "char \<Rightarrow> nat option" where
  "digitValue c =
     (let n = (of_char c :: nat) in
      if 48 \<le> n \<and> n \<le> 57 then Some (n - 48)
      else if 97 \<le> n \<and> n \<le> 122 then Some (n - 87)
      else if 65 \<le> n \<and> n \<le> 90 then Some (n - 55)
      else None)"

definition isDigit :: "nat \<Rightarrow> char \<Rightarrow> bool" where
  "isDigit radix c = (case digitValue c of None \<Rightarrow> False | Some d \<Rightarrow> d < radix)"

definition digitsValue :: "nat \<Rightarrow> string \<Rightarrow> nat" where
  "digitsValue radix ds =
     foldl (\<lambda>acc c. case digitValue c of None \<Rightarrow> acc | Some d \<Rightarrow> acc * radix + d) 0 ds"

text \<open>
  \<^verbatim>\<open>parseInt(s)\<close> with no radix: skip leading white space, read an optional sign, take
  radix 16 after a \<^verbatim>\<open>0x\<close>/\<^verbatim>\<open>0X\<close> prefix and radix 10 otherwise, read the longest run of
  digits and ignore what follows; \<^verbatim>\<open>NaN\<close> when there is no digit.
\<close>

definition parseInt :: "string \<Rightarrow> number" where
  "parseInt s =
     (let s1 = dropWhile isWhiteSpace s;
          negative = (s1 \<noteq> [] \<and> hd s1 = CHR ''-'');
          s2 = (if s1 \<noteq> [] \<and> (hd s1 = CHR ''+'' \<or> hd s1 = CHR ''-'') then tl s1 else s1);
          hex = (startsWith s2 ''0x'' \<or> startsWith s2 ''0X'');
          radix = (if hex then 16 else 10);
          s3 = (if hex then drop 2 s2 else s2);
          z = takeWhile (isDigit radix) s3
      in if z = [] then NaN
         else Number ((if negative then - 1 else 1) * int (digitsValue radix z)))"

subsection \<open>Configuration, caches, requests and responses\<close>

text \<open>The two fields of \<^verbatim>\<open>globals\<close> that the pipeline reads.\<close>

record config =
  token :: string
  rateLimitMaxRequests :: int

type_synonym comment = string

text \<open>
  \<^verbatim>\<open>getCommentCache\<close> and \<^verbatim>\<open>findUrlById\<close> are imported from \<^verbatim>\<open>utils/cache-util.js\<close>,
  which is not part of the sources at hand. They are lookups into the comment cache and
  the id-to-URL index and are taken as parameters: \<open>None\<close> stands for \<^verbatim>\<open>null\<close>. Neither
  touches \<^verbatim>\<open>globals.requestHistory\<close>, which the rate limiter alone owns.
\<close>

record caches =
  getCommentCache :: "string \<Rightarrow> comment list option"
  findUrlById :: "number \<Rightarrow> string option"

text \<open>
  What \<^verbatim>\<open>handleRequest\<close> reads of the request: \<^verbatim>\<open>req.method\<close>, \<^verbatim>\<open>url.pathname\<close>,
  \<^verbatim>\<open>url.searchParams.get('url')\<close> and \<^verbatim>\<open>url.searchParams.get('format')\<close>.
\<close>

record request =
  req_method :: string
  url_pathname :: string
  param_url :: "string option"
  param_format :: "string option"

text \<open>
  Bodies built by \<^verbatim>\<open>handleRequest\<close> itself: the error object
  \<^verbatim>\<open>{errorCode, success, errorMessage}\<close>, \<^verbatim>\<open>{message}\<close>, the homepage object, the log
  text and the \<^verbatim>\<open>null\<close> body.
\<close>

datatype body =
    ErrorBody int bool string
  | MessageBody string
  | HomepageBody
  | LogText
  | NullBody

text \<open>
  Calls into the handlers that \<^verbatim>\<open>handleRequest\<close> returns the result of; they are outside
  the pipeline and stay uninterpreted.
\<close>

datatype upstream =
    SearchAnime request
  | SearchEpisodes request
  | MatchAnime request
  | GetBangumi string
  | GetCommentByUrl string "string option"
  | GetComment string "string option"
  | FormatDanmuResponse nat "comment list" "string option"

datatype response =
    Response body int
  | Upstream upstream

text \<open>\<^verbatim>\<open>jsonResponse(data, status)\<close>.\<close>

definition jsonResponse :: "body \<Rightarrow> int \<Rightarrow> response" where
  "jsonResponse data status = Response data status"

definition handleHomepage :: response where
  "handleHomepage = jsonResponse HomepageBody 200"

text \<open>JavaScript truthiness of a value that is \<^verbatim>\<open>null\<close> or a string.\<close>

fun truthy :: "string option \<Rightarrow> bool" where
  "truthy None = False"
| "truthy (Some s) = (s \<noteq> [])"

subsection \<open>The rate limiter\<close>

type_synonym requestHistory = "string \<rightharpoonup> int list"

definition oneMinute :: int where
  "oneMinute = 60 * 1000"

text \<open>
  Modelled from the spec: \<^verbatim>\<open>cleanupExpiredIPs\<close> of \<^verbatim>\<open>utils/cache-util.js\<close>, which is not
  part of the sources at hand. The specification's sweep: for every tracked client, drop
  timestamps older than \<open>now - 60s\<close>.
\<close>

definition cleanupExpiredIPs :: "int \<Rightarrow> requestHistory \<Rightarrow> requestHistory" where
  "cleanupExpiredIPs currentTime requestHistory =
     (\<lambda>ip. map_option (filter (\<lambda>timestamp. \<not> timestamp < currentTime - 60 * 1000))
             (requestHistory ip))"

text \<open>
  \<^verbatim>\<open>history.filter(timestamp => currentTime - timestamp <= oneMinute)\<close>
\<close>

definition recentRequests :: "int \<Rightarrow> int list \<Rightarrow> int list" where
  "recentRequests currentTime history =
     filter (\<lambda>timestamp. currentTime - timestamp \<le> oneMinute) history"

text \<open>
  The block \<^verbatim>\<open>if (globals.rateLimitMaxRequests > 0) { ... }\<close>, which the source has
  twice, word for word: after the cache miss of a request by URL and after that of a
  request by comment id. \<open>Some r\<close> is the early \<^verbatim>\<open>return\<close> of the 429 response, \<open>None\<close>
  falls through to the statement after the block.
\<close>

definition rateLimit ::
  "config \<Rightarrow> string \<Rightarrow> int \<Rightarrow> requestHistory \<Rightarrow> response option \<times> requestHistory" where
  "rateLimit cfg clientIp currentTime requestHistory =
     (if rateLimitMaxRequests cfg > 0 then
        let h1 = cleanupExpiredIPs currentTime requestHistory;
            h2 = (if h1 clientIp = None then h1(clientIp \<mapsto> []) else h1);
            history = (case h2 clientIp of None \<Rightarrow> [] | Some ts \<Rightarrow> ts);
            recent = recentRequests currentTime history
        in if int (length recent) \<ge> rateLimitMaxRequests cfg
           then (Some (jsonResponse
                   (ErrorBody 429 False ''Too many requests, please try again later'') 429), h2)
           else (None, h2(clientIp \<mapsto> recent @ [currentTime]))
      else (None, requestHistory))"

subsection \<open>The comment route\<close>

text \<open>The branch \<^verbatim>\<open>if (videoUrl) { ... }\<close>.\<close>

definition commentByUrl ::
  "config \<Rightarrow> caches \<Rightarrow> string \<Rightarrow> string option \<Rightarrow> string \<Rightarrow> int \<Rightarrow> requestHistory
     \<Rightarrow> response \<times> requestHistory" where
  "commentByUrl cfg env videoUrl queryFormat clientIp currentTime requestHistory =
     (case getCommentCache env videoUrl of
        Some cachedComments \<Rightarrow>
          (Upstream (FormatDanmuResponse (length cachedComments) cachedComments queryFormat),
           requestHistory)
      | None \<Rightarrow>
          (case rateLimit cfg clientIp currentTime requestHistory of
             (Some r, h) \<Rightarrow> (r, h)
           | (None, h) \<Rightarrow> (Upstream (GetCommentByUrl videoUrl queryFormat), h)))"

text \<open>The rest of the route: the request names a comment id in its path.\<close>

definition commentById ::
  "config \<Rightarrow> caches \<Rightarrow> string \<Rightarrow> string option \<Rightarrow> string \<Rightarrow> int \<Rightarrow> requestHistory
     \<Rightarrow> response \<times> requestHistory" where
  "commentById cfg env path queryFormat clientIp currentTime requestHistory =
     (if \<not> startsWith path ''/api/v2/comment/'' then
        (jsonResponse (ErrorBody 400 False ''Missing commentId or url parameter'') 400,
         requestHistory)
      else
        let commentId = parseInt (last (splitOn CHR ''/'' path));
            urlForComment = findUrlById env commentId;
            cachedComments =
              (if truthy urlForComment
               then (case urlForComment of None \<Rightarrow> None | Some u \<Rightarrow> getCommentCache env u)
               else None)
        in case cachedComments of
             Some cs \<Rightarrow>
               (Upstream (FormatDanmuResponse (length cs) cs queryFormat), requestHistory)
           | None \<Rightarrow>
               (case rateLimit cfg clientIp currentTime requestHistory of
                  (Some r, h) \<Rightarrow> (r, h)
                | (None, h) \<Rightarrow> (Upstream (GetComment path queryFormat), h)))"

definition commentRoute ::
  "config \<Rightarrow> caches \<Rightarrow> request \<Rightarrow> string \<Rightarrow> string \<Rightarrow> int \<Rightarrow> requestHistory
     \<Rightarrow> response \<times> requestHistory" where
  "commentRoute cfg env req path clientIp currentTime requestHistory =
     (let queryFormat = param_format req;
          videoUrl = param_url req
      in case videoUrl of
           Some u \<Rightarrow>
             (if u \<noteq> [] then commentByUrl cfg env u queryFormat clientIp currentTime requestHistory
              else commentById cfg env path queryFormat clientIp currentTime requestHistory)
         | None \<Rightarrow> commentById cfg env path queryFormat clientIp currentTime requestHistory)"

subsection \<open>Dispatch and the entry point\<close>

text \<open>\<^verbatim>\<open>path.split("/").filter(Boolean)\<close>: the non-empty segments of the path.\<close>

definition parts :: "string \<Rightarrow> string list" where
  "parts path = filter (\<lambda>s. s \<noteq> []) (splitOn CHR ''/'' path)"

text \<open>The routing table, on the normalised path.\<close>

definition dispatch ::
  "config \<Rightarrow> caches \<Rightarrow> request \<Rightarrow> string \<Rightarrow> string \<Rightarrow> int \<Rightarrow> requestHistory
     \<Rightarrow> response \<times> requestHistory" where
  "dispatch cfg env req path clientIp currentTime requestHistory =
     (let method = req_method req in
      if path = ''/'' \<and> method = ''GET'' then (handleHomepage, requestHistory)
      else if path = ''/api/v2/search/anime'' \<and> method = ''GET''
        then (Upstream (SearchAnime req), requestHistory)
      else if path = ''/api/v2/search/episodes'' \<and> method = ''GET''
        then (Upstream (SearchEpisodes req), requestHistory)
      else if path = ''/api/v2/match'' \<and> method = ''POST''
        then (Upstream (MatchAnime req), requestHistory)
      else if startsWith path ''/api/v2/bangumi/'' \<and> method = ''GET''
        then (Upstream (GetBangumi path), requestHistory)
      else if startsWith path ''/api/v2/comment'' \<and> method = ''GET''
        then commentRoute cfg env req path clientIp currentTime requestHistory
      else if path = ''/api/logs'' \<and> method = ''GET''
        then (Response LogText 200, requestHistory)
      else (jsonResponse (MessageBody ''Not found'') 404, requestHistory))"

text \<open>
  \<^verbatim>\<open>handleRequest(req, env, deployPlatform, clientIp)\<close>. \<open>cfg\<close> is what
  \<^verbatim>\<open>Globals.init\<close> loads, \<open>currentTime\<close> is what \<^verbatim>\<open>Date.now()\<close> returns during the
  call, and the history is \<^verbatim>\<open>globals.requestHistory\<close> before and after it. The Redis
  calls at the top of the function only refresh the caches, which are a parameter here.
\<close>

definition handleRequest ::
  "config \<Rightarrow> caches \<Rightarrow> request \<Rightarrow> string \<Rightarrow> int \<Rightarrow> requestHistory
     \<Rightarrow> response \<times> requestHistory" where
  "handleRequest cfg env req clientIp currentTime requestHistory =
     (let path = url_pathname req; method = req_method req in
      if path = ''/'' \<and> method = ''GET'' then (handleHomepage, requestHistory)
      else if path = ''/favicon.ico'' \<or> path = ''/robots.txt''
        then (Response NullBody 204, requestHistory)
      else
        (case parts path of
           [] \<Rightarrow>
             (jsonResponse (ErrorBody 401 False ''Unauthorized'') 401, requestHistory)
         | first # rest \<Rightarrow>
             if first \<noteq> token cfg
             then (jsonResponse (ErrorBody 401 False ''Unauthorized'') 401, requestHistory)
             else dispatch cfg env req (normalizePath (''/'' @ joinWith ''/'' rest))
                    clientIp currentTime requestHistory))"

subsection \<open>Sequences of requests\<close>

text \<open>
  \<^verbatim>\<open>globals.requestHistory\<close> lives as long as the process: each request starts from the
  history the previous one left. An event is one call of \<^verbatim>\<open>handleRequest\<close>, with the
  caches as they are at that moment; the log keeps, for each call, the client, the time
  and the response.
\<close>

record event =
  ev_caches :: caches
  ev_request :: request
  ev_clientIp :: string
  ev_time :: int

type_synonym log = "(string \<times> int \<times> response) list"

definition serveStep :: "config \<Rightarrow> requestHistory \<times> log \<Rightarrow> event \<Rightarrow> requestHistory \<times> log" where
  "serveStep cfg st e =
     (case handleRequest cfg (ev_caches e) (ev_request e) (ev_clientIp e) (ev_time e) (fst st) of
        (r, h) \<Rightarrow> (h, snd st @ [(ev_clientIp e, ev_time e, r)]))"

definition serve :: "config \<Rightarrow> requestHistory \<Rightarrow> event list \<Rightarrow> requestHistory \<times> log" where
  "serve cfg requestHistory es = foldl (serveStep cfg) (requestHistory, []) es"

text \<open>
  With the limiter enabled, a comment request is admitted when it got past the limiter
  to the fetching handler: the response is the call of \<^verbatim>\<open>getCommentByUrl\<close> or of
  \<^verbatim>\<open>getComment\<close>.
\<close>

fun admitted :: "response \<Rightarrow> bool" where
  "admitted (Upstream (GetCommentByUrl _ _)) = True"
| "admitted (Upstream (GetComment _ _)) = True"
| "admitted _ = False"

definition admittedTimes :: "string \<Rightarrow> log \<Rightarrow> int list" where
  "admittedTimes clientIp l =
     map (\<lambda>(ip, t, r). t) (filter (\<lambda>(ip, t, r). ip = clientIp \<and> admitted r) l)"

text \<open>The timestamps on record for a client; none when the client is not tracked.\<close>

definition timestampsOf :: "requestHistory \<Rightarrow> string \<Rightarrow> int list" where
  "timestampsOf requestHistory clientIp =
     (case requestHistory clientIp of None \<Rightarrow> [] | Some ts \<Rightarrow> ts)"

section \<open>Properties\<close>

subsection \<open>Facts about the normaliser\<close>

lemma collapsePrefix_fixed:
  "\<not> startsWith path ''/api/v2/api/v2/'' \<Longrightarrow> collapsePrefix path = path"
  by (subst collapsePrefix.simps) simp

lemma collapsePrefix_no_dup: "\<not> startsWith (collapsePrefix path) ''/api/v2/api/v2/''"
proof (induction path rule: collapsePrefix.induct)
  case (1 path)
  show ?case
  proof (cases "startsWith path ''/api/v2/api/v2/''")
    case True
    with 1 show ?thesis by (subst collapsePrefix.simps) simp
  next
    case False
    then show ?thesis by (simp add: collapsePrefix_fixed)
  qed
qed

lemma startsWith_iff: "startsWith s p \<longleftrightarrow> (\<exists>r. s = p @ r)"
proof
  assume "startsWith s p"
  then have "s = p @ drop (length p) s"
    unfolding startsWith_def by (metis append_take_drop_id)
  then show "\<exists>r. s = p @ r" ..
next
  assume "\<exists>r. s = p @ r"
  then show "startsWith s p" by (auto simp: startsWith_def)
qed

lemma completePrefix_no_dup:
  assumes "\<not> startsWith q ''/api/v2/api/v2/''"
  shows "\<not> startsWith (completePrefix q) ''/api/v2/api/v2/''"
proof (cases "\<not> startsWith q ''/api/v2'' \<and> q \<noteq> ''/'' \<and> \<not> startsWith q ''/api/logs''")
  case True
  then have "completePrefix q = ''/api/v2'' @ q" by (simp add: completePrefix_def)
  moreover have "\<not> startsWith (''/api/v2'' @ q) ''/api/v2/api/v2/''"
  proof
    assume "startsWith (''/api/v2'' @ q) ''/api/v2/api/v2/''"
    then obtain r where "''/api/v2'' @ q = ''/api/v2/api/v2/'' @ r"
      unfolding startsWith_iff ..
    then have "q = ''/api/v2'' @ (''/'' @ r)" by simp
    then have "startsWith q ''/api/v2''" unfolding startsWith_iff ..
    with True show False by simp
  qed
  ultimately show ?thesis by simp
next
  case False
  then have "completePrefix q = q" by (auto simp: completePrefix_def)
  with assms show ?thesis by simp
qed

lemma completePrefix_idem: "completePrefix (completePrefix q) = completePrefix q"
  by (simp add: completePrefix_def startsWith_def)

lemma completePrefix_shape:
  "completePrefix q = ''/'' \<or> startsWith (completePrefix q) ''/api/v2''
     \<or> startsWith (completePrefix q) ''/api/logs''"
  by (simp add: completePrefix_def startsWith_def)

lemmas normalize_eval =
  normalizePath_def completePrefix_def collapsePrefix.simps startsWith_def

subsection \<open>C7: the normaliser is idempotent\<close>

text \<open>
  C7. For every path \<open>p\<close> other than \<^verbatim>\<open>/\<close> and \<^verbatim>\<open>/api/logs\<close>, normalising the normalised
  path changes nothing: \<open>normalizePath (normalizePath p) = normalizePath p\<close>. The
  collapsing loop leaves no doubled prefix, the completion adds none, and a completed
  path is not completed again.
\<close>

theorem normalizePath_idempotent:
  assumes "p \<noteq> ''/''" and "p \<noteq> ''/api/logs''"
  shows "normalizePath (normalizePath p) = normalizePath p"
proof -
  let ?q = "collapsePrefix p"
  have n: "normalizePath p = completePrefix ?q"
    using assms by (simp add: normalizePath_def)
  have "\<not> startsWith (completePrefix ?q) ''/api/v2/api/v2/''"
    by (rule completePrefix_no_dup) (rule collapsePrefix_no_dup)
  then have c: "collapsePrefix (completePrefix ?q) = completePrefix ?q"
    by (rule collapsePrefix_fixed)
  show ?thesis
    unfolding n by (simp add: normalizePath_def c completePrefix_idem)
qed

theorem normalizePath_idempotent_witness:
  "''/api/v2/api/v2/search/anime'' \<noteq> ''/'' \<and> ''/api/v2/api/v2/search/anime'' \<noteq> ''/api/logs''
   \<and> normalizePath (normalizePath ''/api/v2/api/v2/search/anime'')
       = normalizePath ''/api/v2/api/v2/search/anime''"
proof -
  have a: "''/api/v2/api/v2/search/anime'' \<noteq> ''/''" by simp
  have b: "''/api/v2/api/v2/search/anime'' \<noteq> ''/api/logs''" by simp
  show ?thesis using a b normalizePath_idempotent [OF a b] by simp
qed

subsection \<open>C3: the shape of the normalised path\<close>

text \<open>
  C3, as stated, says that the path handed to the dispatch table is \<^verbatim>\<open>/\<close>, starts with
  \<^verbatim>\<open>/api/v2\<close> or is \<^verbatim>\<open>/api/logs\<close>. The completion step leaves every path that starts with
  \<^verbatim>\<open>/api/logs\<close> alone, not only \<^verbatim>\<open>/api/logs\<close> itself: the request
  \<^verbatim>\<open>/<token>/api/logs/foo\<close> has the working path \<^verbatim>\<open>/api/logs/foo\<close>, which reaches the
  dispatch table unchanged.
\<close>

theorem normalized_path_logs_counterexample:
  "\<not> (normalizePath ''/api/logs/foo'' = ''/''
      \<or> startsWith (normalizePath ''/api/logs/foo'') ''/api/v2''
      \<or> normalizePath ''/api/logs/foo'' = ''/api/logs'')"
  by (simp add: normalize_eval)

text \<open>
  C3, amended. Whatever the working path, the normalised path that \<^verbatim>\<open>handleRequest\<close>
  hands to the dispatch table is \<^verbatim>\<open>/\<close>, or starts with \<^verbatim>\<open>/api/v2\<close>, or starts with
  \<^verbatim>\<open>/api/logs\<close>.
\<close>

theorem normalized_path_shape:
  "normalizePath p = ''/'' \<or> startsWith (normalizePath p) ''/api/v2''
     \<or> startsWith (normalizePath p) ''/api/logs''"
  unfolding normalizePath_def using completePrefix_shape [of "collapsePrefix p"]
  by (simp add: startsWith_def)

theorem normalized_path_shape_witness:
  "normalizePath ''/api/logs/foo'' = ''/''
     \<or> startsWith (normalizePath ''/api/logs/foo'') ''/api/v2''
     \<or> startsWith (normalizePath ''/api/logs/foo'') ''/api/logs''"
  by (rule normalized_path_shape)

subsection \<open>Facts about the token check and the routing\<close>

lemma parts_root: "parts ''/'' = []"
  by (simp add: parts_def)

lemma parts_favicon: "parts ''/favicon.ico'' = [''favicon.ico'']"
  by (simp add: parts_def)

lemma parts_robots: "parts ''/robots.txt'' = [''robots.txt'']"
  by (simp add: parts_def)

lemma normalizePath_root: "normalizePath ''/'' = ''/''"
  by (simp add: normalizePath_def)

lemma handleRequest_comment:
  assumes "req_method req = ''GET''"
    and "parts (url_pathname req) = token cfg # rest"
    and "path = normalizePath (''/'' @ joinWith ''/'' rest)"
    and "startsWith path ''/api/v2/comment''"
  shows "handleRequest cfg env req clientIp currentTime requestHistory
         = commentRoute cfg env req path clientIp currentTime requestHistory"
proof -
  have p1: "url_pathname req \<noteq> ''/''"
    using assms(2) by (auto simp: parts_root)
  have p2: "url_pathname req \<noteq> ''/favicon.ico''" "url_pathname req \<noteq> ''/robots.txt''"
    using assms(2,3,4) by (auto simp: parts_favicon parts_robots normalizePath_root startsWith_def)
  obtain r where r: "path = ''/api/v2/comment'' @ r"
    using assms(4) unfolding startsWith_iff ..
  have d: "dispatch cfg env req path clientIp currentTime requestHistory
         = commentRoute cfg env req path clientIp currentTime requestHistory"
    using assms(1) unfolding r by (simp add: dispatch_def startsWith_def Let_def)
  show ?thesis
    using p1 p2 assms(2,3) d by (simp add: handleRequest_def)
qed

lemmas request_eval =
  parts_def normalizePath_def completePrefix_def collapsePrefix.simps startsWith_def

lemmas parseInt_eval =
  parseInt_def isWhiteSpace_def isDigit_def digitValue_def digitsValue_def startsWith_def Let_def


lemmas handleRequest_eval =
  handleRequest_def dispatch_def commentRoute_def commentById_def commentByUrl_def
  rateLimit_def cleanupExpiredIPs_def recentRequests_def oneMinute_def jsonResponse_def
  parts_def normalizePath_def completePrefix_def collapsePrefix.simps startsWith_def
  parseInt_def isWhiteSpace_def isDigit_def digitValue_def digitsValue_def Let_def

subsection \<open>C8: the token gate\<close>

text \<open>
  C8. A request whose path is none of \<^verbatim>\<open>/\<close>, \<^verbatim>\<open>/favicon.ico\<close> and \<^verbatim>\<open>/robots.txt\<close>, and
  whose path has no non-empty segment or a first non-empty segment other than the
  configured token, gets the 401 response with the body
  \<^verbatim>\<open>{errorCode: 401, success: false, errorMessage: "Unauthorized"}\<close>. The paths
  \<^verbatim>\<open>/favicon.ico\<close> and \<^verbatim>\<open>/robots.txt\<close> get the empty 204 response whatever the token
  and the method. Neither touches the request history.
\<close>

theorem token_gate:
  "(url_pathname req \<noteq> ''/'' \<and> url_pathname req \<noteq> ''/favicon.ico''
      \<and> url_pathname req \<noteq> ''/robots.txt''
      \<and> (parts (url_pathname req) = [] \<or> hd (parts (url_pathname req)) \<noteq> token cfg)
    \<longrightarrow> handleRequest cfg env req clientIp currentTime requestHistory
          = (Response (ErrorBody 401 False ''Unauthorized'') 401, requestHistory))
   \<and> (url_pathname req = ''/favicon.ico'' \<or> url_pathname req = ''/robots.txt''
    \<longrightarrow> handleRequest cfg env req clientIp currentTime requestHistory
          = (Response NullBody 204, requestHistory))"
  by (auto simp: handleRequest_def jsonResponse_def split: list.splits)

theorem token_gate_witness:
  "handleRequest \<lparr>token = ''secret'', rateLimitMaxRequests = 3\<rparr>
      \<lparr>getCommentCache = Map.empty, findUrlById = Map.empty\<rparr>
      \<lparr>req_method = ''GET'', url_pathname = ''/wrongtoken/api/v2/search/anime'',
        param_url = None, param_format = None\<rparr>
      ''203.0.113.7'' 1000 Map.empty
     = (Response (ErrorBody 401 False ''Unauthorized'') 401, Map.empty)
   \<and> handleRequest \<lparr>token = ''secret'', rateLimitMaxRequests = 3\<rparr>
      \<lparr>getCommentCache = Map.empty, findUrlById = Map.empty\<rparr>
      \<lparr>req_method = ''GET'', url_pathname = ''/favicon.ico'',
        param_url = None, param_format = None\<rparr>
      ''203.0.113.7'' 1000 Map.empty
     = (Response NullBody 204, Map.empty)"
  using token_gate [of "\<lparr>req_method = ''GET'', url_pathname = ''/wrongtoken/api/v2/search/anime'',
        param_url = None, param_format = None\<rparr>" "\<lparr>token = ''secret'', rateLimitMaxRequests = 3\<rparr>"
        "\<lparr>getCommentCache = Map.empty, findUrlById = Map.empty\<rparr>" "''203.0.113.7''" 1000 Map.empty]
    token_gate [of "\<lparr>req_method = ''GET'', url_pathname = ''/favicon.ico'',
        param_url = None, param_format = None\<rparr>" "\<lparr>token = ''secret'', rateLimitMaxRequests = 3\<rparr>"
        "\<lparr>getCommentCache = Map.empty, findUrlById = Map.empty\<rparr>" "''203.0.113.7''" 1000 Map.empty]
  by (simp add: parts_def)



subsection \<open>C1: a cache hit never reaches the rate limiter\<close>

text \<open>
  C1. A \<^verbatim>\<open>GET\<close> request that passes the token check and whose normalised path starts
  with \<^verbatim>\<open>/api/v2/comment\<close> is a comment request. It names its source by a non-empty
  \<^verbatim>\<open>url\<close> parameter (the branch \<^verbatim>\<open>if (videoUrl)\<close>), or else by the id in its last path
  segment, which \<^verbatim>\<open>findUrlById\<close> resolves to a non-empty URL. When the comment cache
  holds a list for that URL, be it the empty list, \<^verbatim>\<open>handleRequest\<close> returns the
  formatted list, and the request history it returns is the one it was given. The
  equation holds for every capacity, every time and every history, and its right-hand
  side mentions the history only as the unchanged second component: the history is
  neither read nor written.
\<close>

theorem cache_hit_bypasses_limiter:
  assumes "req_method req = ''GET''"
    and "parts (url_pathname req) = token cfg # rest"
    and "path = normalizePath (''/'' @ joinWith ''/'' rest)"
    and "startsWith path ''/api/v2/comment''"
    and "(param_url req = Some u \<and> u \<noteq> [])
         \<or> (\<not> truthy (param_url req) \<and> startsWith path ''/api/v2/comment/''
            \<and> findUrlById env (parseInt (last (splitOn CHR ''/'' path))) = Some u \<and> u \<noteq> [])"
    and "getCommentCache env u = Some cachedComments"
  shows "handleRequest cfg env req clientIp currentTime requestHistory
         = (Upstream (FormatDanmuResponse (length cachedComments) cachedComments (param_format req)),
            requestHistory)"
proof -
  have "commentRoute cfg env req path clientIp currentTime requestHistory
         = (Upstream (FormatDanmuResponse (length cachedComments) cachedComments (param_format req)),
            requestHistory)"
    using assms(5)
  proof
    assume "param_url req = Some u \<and> u \<noteq> []"
    then show ?thesis
      using assms(6) by (simp add: commentRoute_def commentByUrl_def)
  next
    assume a: "\<not> truthy (param_url req) \<and> startsWith path ''/api/v2/comment/''
            \<and> findUrlById env (parseInt (last (splitOn CHR ''/'' path))) = Some u \<and> u \<noteq> []"
    then have "commentRoute cfg env req path clientIp currentTime requestHistory
        = commentById cfg env path (param_format req) clientIp currentTime requestHistory"
      by (cases "param_url req") (auto simp: commentRoute_def)
    then show ?thesis
      using a assms(6) by (simp add: commentById_def)
  qed
  then show ?thesis
    using handleRequest_comment [OF assms(1-4)] by simp
qed


theorem cache_hit_bypasses_limiter_witness:
  "handleRequest \<lparr>token = ''secret'', rateLimitMaxRequests = 1\<rparr>
      \<lparr>getCommentCache = [''https://v.example/ep1'' \<mapsto> [''c1'', ''c2'']],
        findUrlById = Map.empty\<rparr>
      \<lparr>req_method = ''GET'', url_pathname = ''/secret/api/v2/comment'',
        param_url = Some ''https://v.example/ep1'', param_format = Some ''xml''\<rparr>
      ''203.0.113.7'' 1000 [''203.0.113.7'' \<mapsto> [999]]
     = (Upstream (FormatDanmuResponse 2 [''c1'', ''c2''] (Some ''xml'')),
        [''203.0.113.7'' \<mapsto> [999]])
   \<and> handleRequest \<lparr>token = ''secret'', rateLimitMaxRequests = 1\<rparr>
      \<lparr>getCommentCache = [''https://v.example/ep1'' \<mapsto> []],
        findUrlById = [Number 42 \<mapsto> ''https://v.example/ep1'']\<rparr>
      \<lparr>req_method = ''GET'', url_pathname = ''/secret/comment/42'',
        param_url = None, param_format = None\<rparr>
      ''203.0.113.7'' 1000 [''203.0.113.7'' \<mapsto> [999]]
     = (Upstream (FormatDanmuResponse 0 [] None), [''203.0.113.7'' \<mapsto> [999]])"
proof -
  let ?cfg = "\<lparr>token = ''secret'', rateLimitMaxRequests = 1\<rparr>"
  let ?h = "[''203.0.113.7'' \<mapsto> [999::int]]"
  let ?u = "''https://v.example/ep1''"
  let ?env1 = "\<lparr>getCommentCache = [?u \<mapsto> [''c1'', ''c2'']], findUrlById = Map.empty\<rparr>"
  let ?req1 = "\<lparr>req_method = ''GET'', url_pathname = ''/secret/api/v2/comment'',
        param_url = Some ?u, param_format = Some ''xml''\<rparr>"
  let ?env2 = "\<lparr>getCommentCache = [?u \<mapsto> []], findUrlById = [Number 42 \<mapsto> ?u]\<rparr>"
  let ?req2 = "\<lparr>req_method = ''GET'', url_pathname = ''/secret/comment/42'',
        param_url = None, param_format = None\<rparr>"
  have a1: "req_method ?req1 = ''GET''" by simp
  have a2: "parts (url_pathname ?req1) = token ?cfg # [''api'', ''v2'', ''comment'']"
    by (simp add: parts_def)
  have a3: "''/api/v2/comment'' = normalizePath (''/'' @ joinWith ''/'' [''api'', ''v2'', ''comment''])"
    by (simp add: normalize_eval)
  have a4: "startsWith ''/api/v2/comment'' ''/api/v2/comment''"
    by (simp add: startsWith_def)
  have a5: "(param_url ?req1 = Some ?u \<and> ?u \<noteq> [])
         \<or> (\<not> truthy (param_url ?req1) \<and> startsWith ''/api/v2/comment'' ''/api/v2/comment/''
            \<and> findUrlById ?env1 (parseInt (last (splitOn CHR ''/'' ''/api/v2/comment''))) = Some ?u
            \<and> ?u \<noteq> [])"
    by simp
  have a6: "getCommentCache ?env1 ?u = Some [''c1'', ''c2'']" by simp
  have b1: "req_method ?req2 = ''GET''" by simp
  have b2: "parts (url_pathname ?req2) = token ?cfg # [''comment'', ''42'']"
    by (simp add: parts_def)
  have b3: "''/api/v2/comment/42'' = normalizePath (''/'' @ joinWith ''/'' [''comment'', ''42''])"
    by (simp add: normalize_eval)
  have b4: "startsWith ''/api/v2/comment/42'' ''/api/v2/comment''"
    by (simp add: startsWith_def)
  have b5': "parseInt (last (splitOn CHR ''/'' ''/api/v2/comment/42'')) = Number 42"
    by (simp add: parseInt_eval)
  have b5: "(param_url ?req2 = Some ?u \<and> ?u \<noteq> [])
         \<or> (\<not> truthy (param_url ?req2) \<and> startsWith ''/api/v2/comment/42'' ''/api/v2/comment/''
            \<and> findUrlById ?env2 (parseInt (last (splitOn CHR ''/'' ''/api/v2/comment/42''))) = Some ?u
            \<and> ?u \<noteq> [])"
    unfolding b5' by (simp add: startsWith_def)
  have b6: "getCommentCache ?env2 ?u = Some []" by simp
  show ?thesis
    using cache_hit_bypasses_limiter [OF a1 a2 a3 a4 a5 a6, of "''203.0.113.7''" 1000 ?h]
      cache_hit_bypasses_limiter [OF b1 b2 b3 b4 b5 b6, of "''203.0.113.7''" 1000 ?h]
    by simp
qed


subsection \<open>Facts about the rate limiter\<close>

lemma cleanup_timestampsOf:
  "timestampsOf (cleanupExpiredIPs now h) c = recentRequests now (timestampsOf h c)"
proof (cases "h c")
  case None
  then show ?thesis
    by (simp add: timestampsOf_def cleanupExpiredIPs_def recentRequests_def)
next
  case (Some ts)
  have "filter (\<lambda>t. \<not> t < now - 60 * 1000) ts = filter (\<lambda>t. now - t \<le> oneMinute) ts"
    by (rule filter_cong) (auto simp: oneMinute_def)
  with Some show ?thesis
    by (simp add: timestampsOf_def cleanupExpiredIPs_def recentRequests_def)
qed

lemma cleanup_None: "cleanupExpiredIPs now h c = None \<longleftrightarrow> h c = None"
  by (simp add: cleanupExpiredIPs_def)

lemma timestampsOf_upd:
  "timestampsOf (h(ip \<mapsto> ts)) c = (if c = ip then ts else timestampsOf h c)"
  by (simp add: timestampsOf_def)

lemma rateLimit_disabled:
  "rateLimitMaxRequests cfg \<le> 0 \<Longrightarrow> rateLimit cfg ip now h = (None, h)"
  by (simp add: rateLimit_def)

lemma rateLimit_enabled:
  assumes "rateLimitMaxRequests cfg > 0"
  shows "rateLimit cfg ip now h =
    (if int (length (recentRequests now (timestampsOf h ip))) \<ge> rateLimitMaxRequests cfg
     then (Some (Response (ErrorBody 429 False ''Too many requests, please try again later'') 429),
           cleanupExpiredIPs now h)
     else (None, (cleanupExpiredIPs now h)(ip \<mapsto> recentRequests now (timestampsOf h ip) @ [now])))"
proof (cases "h ip")
  case None
  then have c: "cleanupExpiredIPs now h ip = None" by (simp add: cleanup_None)
  have t: "timestampsOf h ip = []" using None by (simp add: timestampsOf_def)
  show ?thesis
    using assms by (simp add: rateLimit_def c t recentRequests_def)
next
  case (Some ts)
  then obtain ts' where c: "cleanupExpiredIPs now h ip = Some ts'"
    by (cases "cleanupExpiredIPs now h ip") (auto simp: cleanup_None)
  then have "timestampsOf (cleanupExpiredIPs now h) ip = ts'" by (simp add: timestampsOf_def)
  then have ts': "ts' = recentRequests now (timestampsOf h ip)" by (simp add: cleanup_timestampsOf)
  have idem: "recentRequests now ts' = ts'" unfolding ts' by (simp add: recentRequests_def)
  show ?thesis
    using assms by (simp add: rateLimit_def c idem jsonResponse_def Let_def) (simp add: ts')
qed

lemma rateLimit_rejects_429:
  "rateLimit cfg ip now h = (Some r, h') \<Longrightarrow>
     r = Response (ErrorBody 429 False ''Too many requests, please try again later'') 429"
  by (cases "rateLimitMaxRequests cfg > 0")
     (auto simp: rateLimit_enabled rateLimit_disabled split: if_splits)

lemma commentByUrl_effect:
  assumes "commentByUrl cfg env u f ip now h = (r, h')"
  shows "(h' = h \<and> \<not> admitted r \<and> (\<forall>b. r \<noteq> Response b 429))
       \<or> rateLimit cfg ip now h = (Some r, h')
       \<or> (rateLimit cfg ip now h = (None, h') \<and> admitted r)"
  using assms
  by (auto simp: commentByUrl_def split: option.splits prod.splits)

lemma commentById_effect:
  assumes "commentById cfg env path f ip now h = (r, h')"
  shows "(h' = h \<and> \<not> admitted r \<and> (\<forall>b. r \<noteq> Response b 429))
       \<or> rateLimit cfg ip now h = (Some r, h')
       \<or> (rateLimit cfg ip now h = (None, h') \<and> admitted r)"
proof (cases "startsWith path ''/api/v2/comment/''")
  case False
  with assms show ?thesis by (auto simp: commentById_def jsonResponse_def)
next
  case True
  with assms show ?thesis
    by (auto simp: commentById_def Let_def split: option.splits prod.splits if_splits)
qed

lemma commentRoute_effect:
  assumes "commentRoute cfg env req path ip now h = (r, h')"
  shows "(h' = h \<and> \<not> admitted r \<and> (\<forall>b. r \<noteq> Response b 429))
       \<or> rateLimit cfg ip now h = (Some r, h')
       \<or> (rateLimit cfg ip now h = (None, h') \<and> admitted r)"
proof -
  have "commentRoute cfg env req path ip now h
          = commentById cfg env path (param_format req) ip now h
      \<or> (\<exists>u. commentRoute cfg env req path ip now h
          = commentByUrl cfg env u (param_format req) ip now h)"
    by (cases "param_url req") (auto simp: commentRoute_def Let_def)
  with assms show ?thesis
    using commentById_effect commentByUrl_effect by metis
qed

lemma dispatch_effect:
  assumes "dispatch cfg env req path ip now h = (r, h')"
  shows "(h' = h \<and> \<not> admitted r \<and> (\<forall>b. r \<noteq> Response b 429))
       \<or> rateLimit cfg ip now h = (Some r, h')
       \<or> (rateLimit cfg ip now h = (None, h') \<and> admitted r)"
proof (cases "startsWith path ''/api/v2/comment'' \<and> req_method req = ''GET''")
  case True
  then obtain s where "path = ''/api/v2/comment'' @ s"
    unfolding startsWith_iff by blast
  with True have "dispatch cfg env req path ip now h = commentRoute cfg env req path ip now h"
    by (simp add: dispatch_def startsWith_def Let_def)
  with assms show ?thesis using commentRoute_effect by simp
next
  case False
  then have c: "(startsWith path ''/api/v2/comment'' \<and> req_method req = ''GET'') = False"
    by simp
  have "snd (dispatch cfg env req path ip now h) = h"
    by (simp add: dispatch_def Let_def c)
  moreover have "fst (dispatch cfg env req path ip now h)
      \<in> {Response HomepageBody 200, Upstream (SearchAnime req), Upstream (SearchEpisodes req),
         Upstream (MatchAnime req), Upstream (GetBangumi path), Response LogText 200,
         Response (MessageBody ''Not found'') 404}"
    by (simp add: dispatch_def Let_def jsonResponse_def handleHomepage_def c)
  ultimately have "h' = h \<and> \<not> admitted r \<and> (\<forall>b. r \<noteq> Response b 429)"
    unfolding assms by auto
  then show ?thesis by simp
qed

lemma handleRequest_effect:
  assumes "handleRequest cfg env req ip now h = (r, h')"
  shows "(h' = h \<and> \<not> admitted r \<and> (\<forall>b. r \<noteq> Response b 429))
       \<or> rateLimit cfg ip now h = (Some r, h')
       \<or> (rateLimit cfg ip now h = (None, h') \<and> admitted r)"
proof -
  have "(h' = h \<and> (r = handleHomepage \<or> r = Response NullBody 204
            \<or> r = Response (ErrorBody 401 False ''Unauthorized'') 401))
      \<or> (\<exists>path. dispatch cfg env req path ip now h = (r, h'))"
    using assms unfolding handleRequest_def Let_def jsonResponse_def
    by (simp split: if_splits list.splits) auto
  then consider
      (early) "h' = h" and "r = handleHomepage \<or> r = Response NullBody 204
            \<or> r = Response (ErrorBody 401 False ''Unauthorized'') 401"
    | (routed) path where "dispatch cfg env req path ip now h = (r, h')"
    by blast
  then show ?thesis
  proof cases
    case early
    then show ?thesis by (auto simp: handleHomepage_def jsonResponse_def)
  next
    case routed
    then show ?thesis by (rule dispatch_effect)
  qed
qed




lemma commentRoute_miss:
  assumes "(param_url req = Some u \<and> u \<noteq> [] \<and> getCommentCache env u = None)
         \<or> (\<not> truthy (param_url req) \<and> startsWith path ''/api/v2/comment/''
            \<and> (case findUrlById env (parseInt (last (splitOn CHR ''/'' path))) of
                  None \<Rightarrow> True | Some v \<Rightarrow> v = [] \<or> getCommentCache env v = None))"
  shows "commentRoute cfg env req path ip now h =
     (case rateLimit cfg ip now h of
        (Some r, h') \<Rightarrow> (r, h')
      | (None, h') \<Rightarrow>
          (Upstream (if truthy (param_url req) then GetCommentByUrl u (param_format req)
                     else GetComment path (param_format req)), h'))"
  using assms
proof
  assume "param_url req = Some u \<and> u \<noteq> [] \<and> getCommentCache env u = None"
  then show ?thesis
    by (simp add: commentRoute_def commentByUrl_def)
next
  assume a: "\<not> truthy (param_url req) \<and> startsWith path ''/api/v2/comment/''
            \<and> (case findUrlById env (parseInt (last (splitOn CHR ''/'' path))) of
                  None \<Rightarrow> True | Some v \<Rightarrow> v = [] \<or> getCommentCache env v = None)"
  then have "commentRoute cfg env req path ip now h
        = commentById cfg env path (param_format req) ip now h"
    by (cases "param_url req") (auto simp: commentRoute_def)
  moreover have "commentById cfg env path (param_format req) ip now h =
     (case rateLimit cfg ip now h of
        (Some r, h') \<Rightarrow> (r, h')
      | (None, h') \<Rightarrow> (Upstream (GetComment path (param_format req)), h'))"
    using a by (auto simp: commentById_def Let_def split: option.splits)
  ultimately show ?thesis using a by simp
qed

subsection \<open>C6: rejection at capacity\<close>

text \<open>
  C6. A comment request (\<^verbatim>\<open>GET\<close>, token accepted, normalised path starting with
  \<^verbatim>\<open>/api/v2/comment\<close>) that misses the cache reaches the rate-limit check. When the
  capacity is positive and the client has at least that many timestamps within the
  window, \<^verbatim>\<open>handleRequest\<close> returns the 429 response with the body
  \<^verbatim>\<open>{errorCode: 429, success: false, errorMessage: "Too many requests, please try again later"}\<close>.
  The history it leaves is the swept one and the client's list in it is the list of its
  in-window timestamps: the current time is not appended.
\<close>

theorem over_capacity_rejected:
  assumes "req_method req = ''GET''"
    and "parts (url_pathname req) = token cfg # rest"
    and "path = normalizePath (''/'' @ joinWith ''/'' rest)"
    and "startsWith path ''/api/v2/comment''"
    and "(param_url req = Some u \<and> u \<noteq> [] \<and> getCommentCache env u = None)
         \<or> (\<not> truthy (param_url req) \<and> startsWith path ''/api/v2/comment/''
            \<and> (case findUrlById env (parseInt (last (splitOn CHR ''/'' path))) of
                  None \<Rightarrow> True | Some v \<Rightarrow> v = [] \<or> getCommentCache env v = None))"
    and "rateLimitMaxRequests cfg > 0"
    and "int (length (recentRequests currentTime (timestampsOf requestHistory clientIp)))
           \<ge> rateLimitMaxRequests cfg"
  shows "handleRequest cfg env req clientIp currentTime requestHistory
         = (Response (ErrorBody 429 False ''Too many requests, please try again later'') 429,
            cleanupExpiredIPs currentTime requestHistory)
       \<and> timestampsOf (cleanupExpiredIPs currentTime requestHistory) clientIp
         = recentRequests currentTime (timestampsOf requestHistory clientIp)"
proof -
  have "handleRequest cfg env req clientIp currentTime requestHistory
      = commentRoute cfg env req path clientIp currentTime requestHistory"
    by (rule handleRequest_comment [OF assms(1-4)])
  also have "\<dots> = (Response (ErrorBody 429 False ''Too many requests, please try again later'') 429,
            cleanupExpiredIPs currentTime requestHistory)"
    unfolding commentRoute_miss [OF assms(5)] rateLimit_enabled [OF assms(6)]
    using assms(7) by simp
  finally show ?thesis by (simp add: cleanup_timestampsOf)
qed

theorem over_capacity_rejected_witness:
  "handleRequest \<lparr>token = ''secret'', rateLimitMaxRequests = 1\<rparr>
      \<lparr>getCommentCache = Map.empty, findUrlById = Map.empty\<rparr>
      \<lparr>req_method = ''GET'', url_pathname = ''/secret/api/v2/comment'',
        param_url = Some ''https://v.example/ep1'', param_format = None\<rparr>
      ''203.0.113.7'' 1000 [''203.0.113.7'' \<mapsto> [999]]
     = (Response (ErrorBody 429 False ''Too many requests, please try again later'') 429,
        cleanupExpiredIPs 1000 [''203.0.113.7'' \<mapsto> [999]])
   \<and> timestampsOf (cleanupExpiredIPs 1000 [''203.0.113.7'' \<mapsto> [999]]) ''203.0.113.7'' = [999]"
proof -
  let ?cfg = "\<lparr>token = ''secret'', rateLimitMaxRequests = 1\<rparr>"
  let ?h = "[''203.0.113.7'' \<mapsto> [999::int]]"
  let ?u = "''https://v.example/ep1''"
  let ?env = "\<lparr>getCommentCache = Map.empty, findUrlById = Map.empty\<rparr>"
  let ?req = "\<lparr>req_method = ''GET'', url_pathname = ''/secret/api/v2/comment'',
        param_url = Some ?u, param_format = None\<rparr>"
  have a1: "req_method ?req = ''GET''" by simp
  have a2: "parts (url_pathname ?req) = token ?cfg # [''api'', ''v2'', ''comment'']"
    by (simp add: parts_def)
  have a3: "''/api/v2/comment'' = normalizePath (''/'' @ joinWith ''/'' [''api'', ''v2'', ''comment''])"
    by (simp add: normalize_eval)
  have a4: "startsWith ''/api/v2/comment'' ''/api/v2/comment''"
    by (simp add: startsWith_def)
  have a5: "(param_url ?req = Some ?u \<and> ?u \<noteq> [] \<and> getCommentCache ?env ?u = None)
         \<or> (\<not> truthy (param_url ?req) \<and> startsWith ''/api/v2/comment'' ''/api/v2/comment/''
            \<and> (case findUrlById ?env (parseInt (last (splitOn CHR ''/'' ''/api/v2/comment''))) of
                  None \<Rightarrow> True | Some v \<Rightarrow> v = [] \<or> getCommentCache ?env v = None))"
    by simp
  have a6: "rateLimitMaxRequests ?cfg > 0" by simp
  have r: "recentRequests 1000 (timestampsOf ?h ''203.0.113.7'') = [999]"
    by (simp add: recentRequests_def timestampsOf_def oneMinute_def)
  have a7: "int (length (recentRequests 1000 (timestampsOf ?h ''203.0.113.7'')))
           \<ge> rateLimitMaxRequests ?cfg"
    unfolding r by simp
  show ?thesis
    using over_capacity_rejected [OF a1 a2 a3 a4 a5 a6 a7] unfolding r by simp
qed

subsection \<open>C10: the history after an admission\<close>

text \<open>
  C10. With a positive capacity \<open>N\<close>, after a request of client \<open>c\<close> is admitted (the
  response is the call of the fetching handler) the list stored for \<open>c\<close> is \<open>c\<close>'s
  previous in-window timestamps followed by the current time. Hence it has at most \<open>N\<close>
  entries, none of them more than 60 seconds before the admission; and when the clock has
  not run backwards (no stored timestamp is later than the current time) every entry lies
  in the window that ends at the admission.
\<close>

theorem admission_prunes_history:
  assumes "rateLimitMaxRequests cfg > 0"
    and "handleRequest cfg env req clientIp currentTime requestHistory = (r, h')"
    and "admitted r"
  shows "timestampsOf h' clientIp
           = recentRequests currentTime (timestampsOf requestHistory clientIp) @ [currentTime]
       \<and> int (length (timestampsOf h' clientIp)) \<le> rateLimitMaxRequests cfg
       \<and> (\<forall>t \<in> set (timestampsOf h' clientIp). currentTime - t \<le> oneMinute)
       \<and> ((\<forall>t \<in> set (timestampsOf requestHistory clientIp). t \<le> currentTime)
            \<longrightarrow> (\<forall>t \<in> set (timestampsOf h' clientIp).
                   currentTime - oneMinute \<le> t \<and> t \<le> currentTime))"
proof -
  have "rateLimit cfg clientIp currentTime requestHistory = (None, h')"
    using handleRequest_effect [OF assms(2)] assms(3) rateLimit_rejects_429 by fastforce
  then have lt: "int (length (recentRequests currentTime (timestampsOf requestHistory clientIp)))
        < rateLimitMaxRequests cfg"
    and h': "h' = (cleanupExpiredIPs currentTime requestHistory)
       (clientIp \<mapsto> recentRequests currentTime (timestampsOf requestHistory clientIp) @ [currentTime])"
    unfolding rateLimit_enabled [OF assms(1)] by (auto split: if_splits)
  have ts: "timestampsOf h' clientIp
           = recentRequests currentTime (timestampsOf requestHistory clientIp) @ [currentTime]"
    unfolding h' by (simp add: timestampsOf_upd)
  show ?thesis
    unfolding ts using lt by (auto simp: recentRequests_def oneMinute_def)
qed

theorem admission_prunes_history_witness:
  "timestampsOf (snd (handleRequest \<lparr>token = ''secret'', rateLimitMaxRequests = 2\<rparr>
      \<lparr>getCommentCache = Map.empty, findUrlById = Map.empty\<rparr>
      \<lparr>req_method = ''GET'', url_pathname = ''/secret/api/v2/comment/42'',
        param_url = None, param_format = None\<rparr>
      ''203.0.113.7'' 60400 [''203.0.113.7'' \<mapsto> [0, 500]])) ''203.0.113.7'' = [500, 60400]"
proof -
  let ?cfg = "\<lparr>token = ''secret'', rateLimitMaxRequests = 2\<rparr>"
  let ?h = "[''203.0.113.7'' \<mapsto> [0::int, 500]]"
  let ?env = "\<lparr>getCommentCache = Map.empty, findUrlById = Map.empty\<rparr>"
  let ?req = "\<lparr>req_method = ''GET'', url_pathname = ''/secret/api/v2/comment/42'',
        param_url = None, param_format = None\<rparr>"
  let ?out = "handleRequest ?cfg ?env ?req ''203.0.113.7'' 60400 ?h"
  have a1: "rateLimitMaxRequests ?cfg > 0" by simp
  have a2: "?out = (fst ?out, snd ?out)" by simp
  have "fst ?out = Upstream (GetComment ''/api/v2/comment/42'' None)"
    by (simp add: handleRequest_eval)
  then have a3: "admitted (fst ?out)" by simp
  have r: "recentRequests 60400 (timestampsOf ?h ''203.0.113.7'') = [500]"
    by (simp add: recentRequests_def timestampsOf_def oneMinute_def)
  show ?thesis
    using admission_prunes_history [OF a1 a2 a3] unfolding r by simp
qed

subsection \<open>C9: the disabled limiter\<close>

text \<open>
  C9. With a capacity of zero or less the limiter lets every request through and records
  nothing: \<open>rateLimit\<close> returns no response and the history as it was. Over any sequence
  of requests, of one client or of many, the history stays what it was at the start and no
  response is a 429.
\<close>

theorem disabled_limiter:
  assumes "rateLimitMaxRequests cfg \<le> 0"
  shows "rateLimit cfg clientIp currentTime requestHistory = (None, requestHistory)
       \<and> fst (serve cfg requestHistory es) = requestHistory
       \<and> (\<forall>x \<in> set (snd (serve cfg requestHistory es)). \<forall>b. snd (snd x) \<noteq> Response b 429)"
proof -
  have "fst (serve cfg requestHistory es) = requestHistory
       \<and> (\<forall>x \<in> set (snd (serve cfg requestHistory es)). \<forall>b. snd (snd x) \<noteq> Response b 429)"
  proof (induction es rule: rev_induct)
    case Nil
    show ?case by (simp add: serve_def)
  next
    case (snoc e es)
    obtain r h' where step: "handleRequest cfg (ev_caches e) (ev_request e) (ev_clientIp e)
        (ev_time e) requestHistory = (r, h')"
      by (cases "handleRequest cfg (ev_caches e) (ev_request e) (ev_clientIp e)
        (ev_time e) requestHistory")
    have "h' = requestHistory \<and> (\<forall>b. r \<noteq> Response b 429)"
      using handleRequest_effect [OF step] rateLimit_disabled [OF assms]
      by (cases r) auto
    moreover have "serve cfg requestHistory (es @ [e])
        = serveStep cfg (serve cfg requestHistory es) e"
      by (simp add: serve_def)
    ultimately show ?case
      using snoc step by (auto simp: serveStep_def split: prod.splits)
  qed
  then show ?thesis using rateLimit_disabled [OF assms] by simp
qed


theorem disabled_limiter_witness:
  "rateLimit \<lparr>token = ''secret'', rateLimitMaxRequests = 0\<rparr> ''203.0.113.7'' 1000 Map.empty
     = (None, Map.empty)
   \<and> fst (serve \<lparr>token = ''secret'', rateLimitMaxRequests = 0\<rparr> Map.empty
        [\<lparr>ev_caches = \<lparr>getCommentCache = Map.empty, findUrlById = Map.empty\<rparr>,
          ev_request = \<lparr>req_method = ''GET'', url_pathname = ''/secret/api/v2/comment/42'',
            param_url = None, param_format = None\<rparr>,
          ev_clientIp = ''203.0.113.7'', ev_time = 1000\<rparr>,
         \<lparr>ev_caches = \<lparr>getCommentCache = Map.empty, findUrlById = Map.empty\<rparr>,
          ev_request = \<lparr>req_method = ''GET'', url_pathname = ''/secret/api/v2/comment/42'',
            param_url = None, param_format = None\<rparr>,
          ev_clientIp = ''203.0.113.7'', ev_time = 1000\<rparr>]) = Map.empty"
proof -
  have a: "rateLimitMaxRequests \<lparr>token = ''secret'', rateLimitMaxRequests = 0\<rparr> \<le> 0"
    by simp
  show ?thesis
    using disabled_limiter [OF a, of "''203.0.113.7''" 1000 Map.empty] by blast
qed

subsection \<open>Facts about sequences of requests\<close>

lemma serve_snoc: "serve cfg h (es @ [e]) = serveStep cfg (serve cfg h es) e"
  by (simp add: serve_def)

lemma admittedTimes_snoc:
  "admittedTimes c (l @ [(ip, t, r)])
     = admittedTimes c l @ (if ip = c \<and> admitted r then [t] else [])"
  by (simp add: admittedTimes_def)

lemma recent_later:
  assumes "now \<le> t"
  shows "filter (\<lambda>a. t - a \<le> oneMinute) (recentRequests now xs)
       = filter (\<lambda>a. t - a \<le> oneMinute) xs"
  unfolding recentRequests_def filter_filter
  by (rule filter_cong) (use assms in auto)

lemma recent_later_mset:
  assumes "now \<le> t"
  shows "filter_mset (\<lambda>a. t - a \<le> oneMinute) (mset (recentRequests now xs))
       = filter_mset (\<lambda>a. t - a \<le> oneMinute) (mset xs)"
  using recent_later [OF assms, of xs] by (metis mset_filter)

lemma length_filter_mono:
  "(\<And>x. x \<in> set xs \<Longrightarrow> P x \<Longrightarrow> Q x) \<Longrightarrow> length (filter P xs) \<le> length (filter Q xs)"
  by (induction xs) auto

lemma step_cases:
  assumes "rateLimitMaxRequests cfg > 0"
    and "handleRequest cfg env req ip now h = (r, h')"
  shows "(\<not> (ip = c \<and> admitted r)
          \<and> (timestampsOf h' c = timestampsOf h c
             \<or> timestampsOf h' c = recentRequests now (timestampsOf h c)))
       \<or> (ip = c \<and> admitted r
          \<and> timestampsOf h' c = recentRequests now (timestampsOf h c) @ [now]
          \<and> int (length (recentRequests now (timestampsOf h c))) < rateLimitMaxRequests cfg)"
proof -
  consider (same) "h' = h" and "\<not> admitted r"
    | (reject) "rateLimit cfg ip now h = (Some r, h')"
    | (admit) "rateLimit cfg ip now h = (None, h')" and "admitted r"
    using handleRequest_effect [OF assms(2)] by blast
  then show ?thesis
  proof cases
    case same
    then show ?thesis by simp
  next
    case reject
    then have "r = Response (ErrorBody 429 False ''Too many requests, please try again later'') 429"
      by (rule rateLimit_rejects_429)
    moreover have "h' = cleanupExpiredIPs now h"
      using reject unfolding rateLimit_enabled [OF assms(1)] by (auto split: if_splits)
    ultimately show ?thesis by (simp add: cleanup_timestampsOf)
  next
    case admit
    then have lt: "int (length (recentRequests now (timestampsOf h ip))) < rateLimitMaxRequests cfg"
      and h': "h' = (cleanupExpiredIPs now h)(ip \<mapsto> recentRequests now (timestampsOf h ip) @ [now])"
      unfolding rateLimit_enabled [OF assms(1)] by (auto split: if_splits)
    show ?thesis
      using admit(2) lt unfolding h' by (simp add: timestampsOf_upd cleanup_timestampsOf)
  qed
qed

lemma serve_invariant:
  assumes cap: "rateLimitMaxRequests cfg > 0"
    and "sorted (map ev_time es)"
  shows "(\<forall>t. (\<forall>e \<in> set es. ev_time e \<le> t) \<longrightarrow>
            mset (filter (\<lambda>a. t - a \<le> oneMinute) (admittedTimes c (snd (serve cfg h0 es))))
            \<subseteq># mset (filter (\<lambda>a. t - a \<le> oneMinute) (timestampsOf (fst (serve cfg h0 es)) c)))
       \<and> (\<forall>T. int (length (filter (\<lambda>a. T - oneMinute \<le> a \<and> a \<le> T)
                              (admittedTimes c (snd (serve cfg h0 es)))))
              \<le> rateLimitMaxRequests cfg)"
  using assms(2)
proof (induction es rule: rev_induct)
  case Nil
  show ?case using cap by (simp add: serve_def admittedTimes_def)
next
  case (snoc e es)
  from snoc.prems have sorted_es: "sorted (map ev_time es)"
    and before: "\<forall>x \<in> set es. ev_time x \<le> ev_time e"
    by (auto simp: sorted_append)
  define h where "h = fst (serve cfg h0 es)"
  define l where "l = snd (serve cfg h0 es)"
  define A where "A = admittedTimes c l"
  define H where "H = timestampsOf h c"
  define now where "now = ev_time e"
  define ip where "ip = ev_clientIp e"
  have IH1: "mset (filter (\<lambda>a. t - a \<le> oneMinute) A) \<subseteq># mset (filter (\<lambda>a. t - a \<le> oneMinute) H)"
    if "now \<le> t" for t
  proof -
    have "\<forall>x \<in> set es. ev_time x \<le> t" using before that by (auto simp: now_def)
    then show ?thesis using snoc.IH [OF sorted_es] by (simp add: A_def H_def l_def h_def)
  qed
  have IH2: "int (length (filter (\<lambda>a. T - oneMinute \<le> a \<and> a \<le> T) A)) \<le> rateLimitMaxRequests cfg"
    for T
    using snoc.IH [OF sorted_es] by (simp add: A_def l_def)
  obtain r h' where step: "handleRequest cfg (ev_caches e) (ev_request e) ip now h = (r, h')"
    by (cases "handleRequest cfg (ev_caches e) (ev_request e) ip now h")
  have srv: "serve cfg h0 (es @ [e]) = (h', l @ [(ip, now, r)])"
    unfolding serve_snoc using step
    by (simp add: serveStep_def h_def l_def ip_def now_def)
  define A' where "A' = admittedTimes c (l @ [(ip, now, r)])"
  define H' where "H' = timestampsOf h' c"
  have A': "A' = A @ (if ip = c \<and> admitted r then [now] else [])"
    by (simp add: A'_def A_def admittedTimes_snoc)
  consider (keep) "A' = A" and "H' = H \<or> H' = recentRequests now H"
    | (add) "A' = A @ [now]" and "H' = recentRequests now H @ [now]"
        and "int (length (recentRequests now H)) < rateLimitMaxRequests cfg"
    using step_cases [OF cap step, of c] unfolding A' H'_def H_def by auto
  then have "(\<forall>t. now \<le> t \<longrightarrow>
            mset (filter (\<lambda>a. t - a \<le> oneMinute) A') \<subseteq># mset (filter (\<lambda>a. t - a \<le> oneMinute) H'))
       \<and> (\<forall>T. int (length (filter (\<lambda>a. T - oneMinute \<le> a \<and> a \<le> T) A'))
              \<le> rateLimitMaxRequests cfg)"
  proof cases
    case keep
    then show ?thesis using IH1 IH2 by (auto simp: recent_later_mset)
  next
    case add
    have one: "mset (filter (\<lambda>a. t - a \<le> oneMinute) A') \<subseteq># mset (filter (\<lambda>a. t - a \<le> oneMinute) H')"
      if "now \<le> t" for t
      using IH1 [OF that] unfolding add(1,2) by (simp add: recent_later_mset [OF that])
    have two: "int (length (filter (\<lambda>a. T - oneMinute \<le> a \<and> a \<le> T) A')) \<le> rateLimitMaxRequests cfg"
      for T
    proof (cases "T - oneMinute \<le> now \<and> now \<le> T")
      case False
      then show ?thesis using IH2 [of T] unfolding add(1) by auto
    next
      case True
      have "length (filter (\<lambda>a. T - oneMinute \<le> a \<and> a \<le> T) A)
          \<le> length (filter (\<lambda>a. now - a \<le> oneMinute) A)"
        by (rule length_filter_mono) (use True in auto)
      also have "\<dots> = size (mset (filter (\<lambda>a. now - a \<le> oneMinute) A))"
        by (simp only: size_mset)
      also have "\<dots> \<le> size (mset (filter (\<lambda>a. now - a \<le> oneMinute) H))"
        by (rule size_mset_mono) (rule IH1, simp)
      also have "\<dots> = length (recentRequests now H)"
        by (simp only: size_mset recentRequests_def)
      finally have "length (filter (\<lambda>a. T - oneMinute \<le> a \<and> a \<le> T) A)
          \<le> length (recentRequests now H)" .
      then show ?thesis using add(3) True unfolding add(1) by simp
    qed
    from one two show ?thesis by blast
  qed
  then show ?case
    unfolding srv by (simp add: A'_def H'_def now_def)
qed

subsection \<open>C5: never more than the capacity within a window\<close>

text \<open>
  C5. Take any sequence of requests in the order of their times (\<^verbatim>\<open>Date.now()\<close> does not
  decrease from one request to the next), from any clients, starting from any history, with
  a positive capacity \<open>N\<close>. For every client and every instant \<open>T\<close>, at most \<open>N\<close>
  of the client's admitted requests have their admission time in the 60 seconds up to
  \<open>T\<close>, both ends included. The sequence is arbitrary, so this holds at every point of
  it.
\<close>

theorem capacity_invariant:
  assumes "rateLimitMaxRequests cfg > 0"
    and "sorted (map ev_time es)"
  shows "int (length (filter (\<lambda>t. T - oneMinute \<le> t \<and> t \<le> T)
                       (admittedTimes clientIp (snd (serve cfg requestHistory es)))))
           \<le> rateLimitMaxRequests cfg"
  using serve_invariant [OF assms] by blast


theorem capacity_invariant_witness:
  "admittedTimes ''203.0.113.7''
     (snd (serve \<lparr>token = ''secret'', rateLimitMaxRequests = 1\<rparr> Map.empty
        [\<lparr>ev_caches = \<lparr>getCommentCache = Map.empty, findUrlById = Map.empty\<rparr>,
          ev_request = \<lparr>req_method = ''GET'', url_pathname = ''/secret/api/v2/comment/42'',
            param_url = None, param_format = None\<rparr>,
          ev_clientIp = ''203.0.113.7'', ev_time = 0\<rparr>,
         \<lparr>ev_caches = \<lparr>getCommentCache = Map.empty, findUrlById = Map.empty\<rparr>,
          ev_request = \<lparr>req_method = ''GET'', url_pathname = ''/secret/api/v2/comment/42'',
            param_url = None, param_format = None\<rparr>,
          ev_clientIp = ''203.0.113.7'', ev_time = 1000\<rparr>,
         \<lparr>ev_caches = \<lparr>getCommentCache = Map.empty, findUrlById = Map.empty\<rparr>,
          ev_request = \<lparr>req_method = ''GET'', url_pathname = ''/secret/api/v2/comment/42'',
            param_url = None, param_format = None\<rparr>,
          ev_clientIp = ''203.0.113.7'', ev_time = 60001\<rparr>])) = [0, 60001]
   \<and> int (length (filter (\<lambda>t. 60001 - oneMinute \<le> t \<and> t \<le> 60001)
       (admittedTimes ''203.0.113.7''
     (snd (serve \<lparr>token = ''secret'', rateLimitMaxRequests = 1\<rparr> Map.empty
        [\<lparr>ev_caches = \<lparr>getCommentCache = Map.empty, findUrlById = Map.empty\<rparr>,
          ev_request = \<lparr>req_method = ''GET'', url_pathname = ''/secret/api/v2/comment/42'',
            param_url = None, param_format = None\<rparr>,
          ev_clientIp = ''203.0.113.7'', ev_time = 0\<rparr>,
         \<lparr>ev_caches = \<lparr>getCommentCache = Map.empty, findUrlById = Map.empty\<rparr>,
          ev_request = \<lparr>req_method = ''GET'', url_pathname = ''/secret/api/v2/comment/42'',
            param_url = None, param_format = None\<rparr>,
          ev_clientIp = ''203.0.113.7'', ev_time = 1000\<rparr>,
         \<lparr>ev_caches = \<lparr>getCommentCache = Map.empty, findUrlById = Map.empty\<rparr>,
          ev_request = \<lparr>req_method = ''GET'', url_pathname = ''/secret/api/v2/comment/42'',
            param_url = None, param_format = None\<rparr>,
          ev_clientIp = ''203.0.113.7'', ev_time = 60001\<rparr>]))))) \<le> 1"
proof -
  let ?cfg = "\<lparr>token = ''secret'', rateLimitMaxRequests = 1\<rparr>"
  let ?env = "\<lparr>getCommentCache = Map.empty, findUrlById = Map.empty\<rparr>"
  let ?req = "\<lparr>req_method = ''GET'', url_pathname = ''/secret/api/v2/comment/42'',
            param_url = None, param_format = None\<rparr>"
  let ?e = "\<lambda>t. \<lparr>ev_caches = ?env, ev_request = ?req, ev_clientIp = ''203.0.113.7'', ev_time = t\<rparr>"
  let ?es = "[?e 0, ?e 1000, ?e 60001]"
  have a1: "rateLimitMaxRequests ?cfg > 0" by simp
  have a2: "sorted (map ev_time ?es)" by simp
  have e: "admittedTimes ''203.0.113.7'' (snd (serve ?cfg Map.empty ?es)) = [0, 60001]"
    by (simp add: serve_def serveStep_def admittedTimes_def handleRequest_eval)
  have c: "int (length (filter (\<lambda>t. 60001 - oneMinute \<le> t \<and> t \<le> 60001)
       (admittedTimes ''203.0.113.7'' (snd (serve ?cfg Map.empty ?es))))) \<le> rateLimitMaxRequests ?cfg"
    by (rule capacity_invariant [OF a1 a2])
  from e c show ?thesis by simp
qed


subsection \<open>C2: the edge of the window\<close>

text \<open>
  C2, as stated, says that a timestamp recorded exactly 60000 ms before the current check
  no longer counts. The window check keeps a timestamp when
  \<^verbatim>\<open>currentTime - timestamp <= oneMinute\<close>, so such a timestamp is kept and counted: with
  capacity 1, a client whose only request was recorded at time 0 is rejected at time
  60000.
\<close>

theorem window_boundary_counterexample:
  "recentRequests 60000 [0] = [0]
   \<and> fst (handleRequest \<lparr>token = ''secret'', rateLimitMaxRequests = 1\<rparr>
      \<lparr>getCommentCache = Map.empty, findUrlById = Map.empty\<rparr>
      \<lparr>req_method = ''GET'', url_pathname = ''/secret/api/v2/comment/42'',
        param_url = None, param_format = None\<rparr>
      ''203.0.113.7'' 60000 [''203.0.113.7'' \<mapsto> [0]])
     = Response (ErrorBody 429 False ''Too many requests, please try again later'') 429"
  by (simp add: handleRequest_eval)

text \<open>
  C2, amended. With the limiter enabled, a request that reaches the check passes exactly
  when the number of the client's timestamps that the window check keeps is below the
  capacity; and a timestamp \<open>t\<close> anywhere in a list adds one to that number unless it was
  recorded more than 60000 ms before the check (\<open>currentTime - t > oneMinute\<close>). A
  timestamp recorded exactly 60000 ms before still counts; one recorded 60001 ms before
  does not.
\<close>

theorem window_check_counts:
  assumes "rateLimitMaxRequests cfg > 0"
  shows "(fst (rateLimit cfg clientIp currentTime requestHistory) = None
           \<longleftrightarrow> int (length (recentRequests currentTime (timestampsOf requestHistory clientIp)))
                 < rateLimitMaxRequests cfg)
       \<and> length (recentRequests currentTime (xs @ t # ys))
           = length (recentRequests currentTime (xs @ ys))
             + (if currentTime - t > oneMinute then 0 else 1)"
  unfolding rateLimit_enabled [OF assms] by (simp add: recentRequests_def)

theorem window_check_counts_witness:
  "fst (rateLimit \<lparr>token = ''secret'', rateLimitMaxRequests = 1\<rparr> ''203.0.113.7'' 60001
         [''203.0.113.7'' \<mapsto> [0]]) = None
   \<and> length (recentRequests 60001 ([] @ 0 # [])) = length (recentRequests 60001 ([] @ []))"
proof -
  let ?cfg = "\<lparr>token = ''secret'', rateLimitMaxRequests = 1\<rparr>"
  have a: "rateLimitMaxRequests ?cfg > 0" by simp
  have r: "recentRequests 60001 (timestampsOf [''203.0.113.7'' \<mapsto> [0]] ''203.0.113.7'') = []"
    by (simp add: recentRequests_def timestampsOf_def oneMinute_def)
  have o: "60001 - 0 > oneMinute" by (simp add: oneMinute_def)
  show ?thesis
    using window_check_counts [OF a, of "''203.0.113.7''" 60001 "[''203.0.113.7'' \<mapsto> [0]]" "[]" 0 "[]"]
    unfolding r using o by simp
qed

subsection \<open>C4: a comment request with neither id nor URL\<close>

text \<open>
  C4, as stated, says that a comment request without \<^verbatim>\<open>url\<close> parameter gets the 400
  response also when the last path segment fails to parse as an integer.
  \<^verbatim>\<open>handleRequest\<close> returns the 400 response only when nothing follows
  \<^verbatim>\<open>/api/v2/comment/\<close>; it does not look at what \<^verbatim>\<open>parseInt\<close> returns. For
  \<^verbatim>\<open>/api/v2/comment/abc\<close> the id is \<^verbatim>\<open>NaN\<close>, no URL is found for it, and the request
  goes on to the rate limiter: a client below the capacity gets what \<^verbatim>\<open>getComment\<close>
  returns, a client at the capacity gets the 429 response.
\<close>

theorem unparsable_id_counterexample:
  "parseInt (last (splitOn CHR ''/'' ''/api/v2/comment/abc'')) = NaN
   \<and> fst (handleRequest \<lparr>token = ''secret'', rateLimitMaxRequests = 3\<rparr>
      \<lparr>getCommentCache = Map.empty, findUrlById = Map.empty\<rparr>
      \<lparr>req_method = ''GET'', url_pathname = ''/secret/api/v2/comment/abc'',
        param_url = None, param_format = None\<rparr>
      ''203.0.113.7'' 1000 Map.empty)
     = Upstream (GetComment ''/api/v2/comment/abc'' None)
   \<and> fst (handleRequest \<lparr>token = ''secret'', rateLimitMaxRequests = 1\<rparr>
      \<lparr>getCommentCache = Map.empty, findUrlById = Map.empty\<rparr>
      \<lparr>req_method = ''GET'', url_pathname = ''/secret/api/v2/comment/abc'',
        param_url = None, param_format = None\<rparr>
      ''203.0.113.7'' 1000 [''203.0.113.7'' \<mapsto> [999]])
     = Response (ErrorBody 429 False ''Too many requests, please try again later'') 429"
  by (simp add: handleRequest_eval)

text \<open>
  C4, amended. For a comment request (\<^verbatim>\<open>GET\<close>, token accepted, normalised path starting
  with \<^verbatim>\<open>/api/v2/comment\<close>) without a non-empty \<^verbatim>\<open>url\<close> parameter: when the normalised
  path does not start with \<^verbatim>\<open>/api/v2/comment/\<close> (no segment follows), \<^verbatim>\<open>handleRequest\<close>
  returns the 400 response with the body
  \<^verbatim>\<open>{errorCode: 400, success: false, errorMessage: "Missing commentId or url parameter"}\<close>
  and leaves the history alone; when a segment follows, whatever it parses to, the
  response is not that 400 response.
\<close>

theorem missing_comment_id:
  assumes "req_method req = ''GET''"
    and "parts (url_pathname req) = token cfg # rest"
    and "path = normalizePath (''/'' @ joinWith ''/'' rest)"
    and "startsWith path ''/api/v2/comment''"
    and "\<not> truthy (param_url req)"
  shows "(\<not> startsWith path ''/api/v2/comment/'' \<longrightarrow>
           handleRequest cfg env req clientIp currentTime requestHistory
           = (Response (ErrorBody 400 False ''Missing commentId or url parameter'') 400,
              requestHistory))
       \<and> (startsWith path ''/api/v2/comment/'' \<longrightarrow>
           fst (handleRequest cfg env req clientIp currentTime requestHistory)
           \<noteq> Response (ErrorBody 400 False ''Missing commentId or url parameter'') 400)"
proof -
  have "commentRoute cfg env req path clientIp currentTime requestHistory
        = commentById cfg env path (param_format req) clientIp currentTime requestHistory"
    using assms(5) by (cases "param_url req") (auto simp: commentRoute_def)
  then have hr: "handleRequest cfg env req clientIp currentTime requestHistory
        = commentById cfg env path (param_format req) clientIp currentTime requestHistory"
    using handleRequest_comment [OF assms(1-4)] by simp
  have one: "commentById cfg env path (param_format req) clientIp currentTime requestHistory
           = (Response (ErrorBody 400 False ''Missing commentId or url parameter'') 400,
              requestHistory)"
    if "\<not> startsWith path ''/api/v2/comment/''"
    using that by (simp add: commentById_def jsonResponse_def)
  have two: "fst (commentById cfg env path (param_format req) clientIp currentTime requestHistory)
           \<noteq> Response (ErrorBody 400 False ''Missing commentId or url parameter'') 400"
    if s: "startsWith path ''/api/v2/comment/''"
  proof -
    obtain r h' where c: "commentById cfg env path (param_format req) clientIp currentTime
        requestHistory = (r, h')"
      by (cases "commentById cfg env path (param_format req) clientIp currentTime requestHistory")
    obtain x h2 where rl: "rateLimit cfg clientIp currentTime requestHistory = (x, h2)"
      by (cases "rateLimit cfg clientIp currentTime requestHistory")
    have "(\<exists>n cs f. r = Upstream (FormatDanmuResponse n cs f))
        \<or> (\<exists>f. r = Upstream (GetComment path f))
        \<or> x = Some r"
      using c s rl by (auto simp: commentById_def Let_def split: option.splits if_splits)
    moreover have "r = Response (ErrorBody 429 False ''Too many requests, please try again later'') 429"
      if "x = Some r"
      using rl that rateLimit_rejects_429 by simp
    ultimately show ?thesis unfolding c by auto
  qed
  show ?thesis unfolding hr using one two by blast
qed

theorem missing_comment_id_witness:
  "handleRequest \<lparr>token = ''secret'', rateLimitMaxRequests = 3\<rparr>
      \<lparr>getCommentCache = Map.empty, findUrlById = Map.empty\<rparr>
      \<lparr>req_method = ''GET'', url_pathname = ''/secret/api/v2/comment'',
        param_url = None, param_format = None\<rparr>
      ''203.0.113.7'' 1000 Map.empty
     = (Response (ErrorBody 400 False ''Missing commentId or url parameter'') 400, Map.empty)"
proof -
  let ?cfg = "\<lparr>token = ''secret'', rateLimitMaxRequests = 3\<rparr>"
  let ?req = "\<lparr>req_method = ''GET'', url_pathname = ''/secret/api/v2/comment'',
        param_url = None, param_format = None\<rparr>"
  have a1: "req_method ?req = ''GET''" by simp
  have a2: "parts (url_pathname ?req) = token ?cfg # [''api'', ''v2'', ''comment'']"
    by (simp add: parts_def)
  have a3: "''/api/v2/comment'' = normalizePath (''/'' @ joinWith ''/'' [''api'', ''v2'', ''comment''])"
    by (simp add: normalize_eval)
  have a4: "startsWith ''/api/v2/comment'' ''/api/v2/comment''"
    by (simp add: startsWith_def)
  have a5: "\<not> truthy (param_url ?req)" by simp
  have n: "\<not> startsWith ''/api/v2/comment'' ''/api/v2/comment/''"
    by (simp add: startsWith_def)
  show ?thesis
    using missing_comment_id [OF a1 a2 a3 a4 a5] n by blast
qed


end
